theory Spec2Isabelle
  imports Main "HOL-Library.Char_ord" "HOL-Library.List_Lexorder"
begin

section \<open>Python values and the runtime the fields run on\<close>

text \<open>
  The values that reach the fields of \<^verbatim>\<open>djorm_pgarray/fields.py\<close>: what a JSON
  document decodes to (None, booleans, integers, floats, text, lists, dicts), and tuples,
  which the helpers name next to lists. Text is Python 3's \<^verbatim>\<open>str\<close>, so
  \<^verbatim>\<open>six.string_types\<close> is exactly \<open>PStr\<close>; byte strings are not modelled.
  Floats are kept abstract (the type parameter \<open>'f\<close>).
\<close>

datatype 'f pyval =
    PNone
  | PBool bool
  | PInt int
  | PFloat 'f
  | PStr string
  | PList "'f pyval list"
  | PTuple "'f pyval list"
  | PDict "('f pyval \<times> 'f pyval) list"

text \<open>
  The exceptions of the source. \<open>ValueError\<close> is what \<^verbatim>\<open>json.loads\<close>,
  \<^verbatim>\<open>int\<close>, \<^verbatim>\<open>float\<close> and \<^verbatim>\<open>parse_array\<close> raise on text they
  reject (the specification's ParseError and CoercionError); \<open>ValidationError\<close> carries
  the message of \<^verbatim>\<open>forms.ValidationError\<close>.
\<close>

datatype error = ValueError | TypeError | OverflowError | ValidationError string

text \<open>
  What the fields use of the Python runtime and is not code of the repository: the JSON
  decoder, the \<^verbatim>\<open>float\<close> builtin and the float operations behind \<^verbatim>\<open>int\<close>
  and truth testing, \<^verbatim>\<open>str\<close> of floats and containers, and the ordering that
  \<^verbatim>\<open>sort\<close> uses on elements that are neither all text nor all integers.
\<close>

record 'f runtime =
  json_loads :: "string \<Rightarrow> error + 'f pyval"
  float_conv :: "'f pyval \<Rightarrow> error + 'f"
  float_trunc :: "'f \<Rightarrow> error + int"
  float_truth :: "'f \<Rightarrow> bool"
  text_conv :: "'f pyval \<Rightarrow> string"
  sort_other :: "'f pyval list \<Rightarrow> error + 'f pyval list"

fun is_string :: "'f pyval \<Rightarrow> bool" where
  "is_string (PStr s) = True"
| "is_string v = False"

text \<open>The characters of a text (used on texts only).\<close>

fun the_text :: "'f pyval \<Rightarrow> string" where
  "the_text (PStr s) = s"
| "the_text v = []"

fun is_list_or_tuple :: "'f pyval \<Rightarrow> bool" where
  "is_list_or_tuple (PList xs) = True"
| "is_list_or_tuple (PTuple xs) = True"
| "is_list_or_tuple v = False"

text \<open>Truth testing, as \<^verbatim>\<open>not value\<close> does it.\<close>

fun truthy :: "'f runtime \<Rightarrow> 'f pyval \<Rightarrow> bool" where
  "truthy rt PNone = False"
| "truthy rt (PBool b) = b"
| "truthy rt (PInt n) = (n \<noteq> 0)"
| "truthy rt (PFloat f) = float_truth rt f"
| "truthy rt (PStr s) = (s \<noteq> [])"
| "truthy rt (PList xs) = (xs \<noteq> [])"
| "truthy rt (PTuple xs) = (xs \<noteq> [])"
| "truthy rt (PDict kvs) = (kvs \<noteq> [])"

text \<open>
  The first exception raised while the elements of a list comprehension are evaluated
  from left to right, or the list of their values.
\<close>

fun collect :: "(error + 'a) list \<Rightarrow> error + 'a list" where
  "collect [] = Inr []"
| "collect (Inl e # rs) = Inl e"
| "collect (Inr v # rs) = (case collect rs of Inl e \<Rightarrow> Inl e | Inr vs \<Rightarrow> Inr (v # vs))"

subsection \<open>Text and integers\<close>

definition is_space :: "char \<Rightarrow> bool" where
  "is_space c = ((of_char c :: nat) \<in> {9, 10, 11, 12, 13, 28, 29, 30, 31, 32})"

text \<open>\<^verbatim>\<open>str.strip()\<close>.\<close>

definition strip :: "string \<Rightarrow> string" where
  "strip s = rev (dropWhile is_space (rev (dropWhile is_space s)))"

definition is_digit :: "char \<Rightarrow> bool" where
  "is_digit c = (48 \<le> (of_char c :: nat) \<and> (of_char c :: nat) \<le> 57)"

definition digit_val :: "char \<Rightarrow> nat" where
  "digit_val c = of_char c - 48"

definition digit_char :: "nat \<Rightarrow> char" where
  "digit_char d = char_of (48 + d)"

definition nat_of_digits :: "string \<Rightarrow> nat option" where
  "nat_of_digits ds =
     (if ds \<noteq> [] \<and> list_all is_digit ds
      then Some (foldl (\<lambda>a c. 10 * a + digit_val c) 0 ds) else None)"

text \<open>
  \<^verbatim>\<open>int(s)\<close> on text: surrounding whitespace is dropped, one sign is allowed, the
  rest is a non-empty run of decimal digits; anything else is a ValueError (\<open>None\<close>).
  Only the ASCII digits are read, and no underscore between digits.
\<close>

definition int_of_text :: "string \<Rightarrow> int option" where
  "int_of_text s =
     (case strip s of
        [] \<Rightarrow> None
      | c # ds \<Rightarrow>
          if c = CHR ''-'' then map_option (\<lambda>n. - int n) (nat_of_digits ds)
          else if c = CHR ''+'' then map_option int (nat_of_digits ds)
          else map_option int (nat_of_digits (c # ds)))"

function digits_of :: "nat \<Rightarrow> string" where
  "digits_of n =
     (if n < 10 then [digit_char n] else digits_of (n div 10) @ [digit_char (n mod 10)])"
  by pat_completeness auto
termination
  by (relation "measure (\<lambda>n. n)") auto

declare digits_of.simps [simp del]

text \<open>\<^verbatim>\<open>str(n)\<close> of an integer.\<close>

definition text_of_int :: "int \<Rightarrow> string" where
  "text_of_int n = (if n < 0 then CHR ''-'' # digits_of (nat (- n)) else digits_of (nat n))"

text \<open>
  \<^verbatim>\<open>force_text(data)\<close>: text is returned as it is, anything else goes through
  \<^verbatim>\<open>str\<close>.
\<close>

fun force_text :: "'f runtime \<Rightarrow> 'f pyval \<Rightarrow> string" where
  "force_text rt (PStr s) = s"
| "force_text rt (PInt n) = text_of_int n"
| "force_text rt (PBool b) = (if b then ''True'' else ''False'')"
| "force_text rt PNone = ''None''"
| "force_text rt v = text_conv rt v"

text \<open>The builtin \<^verbatim>\<open>int\<close>.\<close>

fun py_int :: "'f runtime \<Rightarrow> 'f pyval \<Rightarrow> error + int" where
  "py_int rt (PInt n) = Inr n"
| "py_int rt (PBool b) = Inr (if b then 1 else 0)"
| "py_int rt (PFloat f) = float_trunc rt f"
| "py_int rt (PStr s) = (case int_of_text s of None \<Rightarrow> Inl ValueError | Some n \<Rightarrow> Inr n)"
| "py_int rt v = Inl TypeError"

section \<open>The module \<^verbatim>\<open>fields.py\<close>\<close>

subsection \<open>\<^verbatim>\<open>TYPES\<close> and the cast helpers\<close>

text \<open>
  The callables that can be a field's \<^verbatim>\<open>_type_cast\<close>: the three builtins of
  \<^verbatim>\<open>TYPES\<close>, the \<^verbatim>\<open>lambda x: x\<close> of the constructor, and whatever a caller
  passes as \<^verbatim>\<open>type_cast\<close>.
\<close>

datatype 'f callable =
    Builtin_int
  | Builtin_str
  | Builtin_float
  | Lambda_identity
  | Callable "'f pyval \<Rightarrow> error + 'f pyval"

definition TYPES :: "(string \<times> 'f callable) list" where
  "TYPES =
     [(''int'', Builtin_int),
      (''smallint'', Builtin_int),
      (''bigint'', Builtin_int),
      (''text'', Builtin_str),
      (''double precision'', Builtin_float),
      (''varchar'', Builtin_str)]"

fun cast_to_unicode :: "'f runtime \<Rightarrow> 'f pyval \<Rightarrow> bool \<Rightarrow> 'f pyval" where
  "cast_to_unicode rt (PList xs) force = PList (map (\<lambda>x. cast_to_unicode rt x force) xs)"
| "cast_to_unicode rt (PTuple xs) force = PList (map (\<lambda>x. cast_to_unicode rt x force) xs)"
| "cast_to_unicode rt (PStr s) force = PStr (force_text rt (PStr s))"
| "cast_to_unicode rt v force = (if force then PStr (force_text rt v) else v)"

text \<open>A call \<^verbatim>\<open>type_cast(data)\<close> of a callable other than \<^verbatim>\<open>str\<close>.\<close>

fun call :: "'f runtime \<Rightarrow> 'f callable \<Rightarrow> 'f pyval \<Rightarrow> error + 'f pyval" where
  "call rt Builtin_int v = (case py_int rt v of Inl e \<Rightarrow> Inl e | Inr n \<Rightarrow> Inr (PInt n))"
| "call rt Builtin_float v = (case float_conv rt v of Inl e \<Rightarrow> Inl e | Inr f \<Rightarrow> Inr (PFloat f))"
| "call rt Builtin_str v = Inr (PStr (force_text rt v))"
| "call rt Lambda_identity v = Inr v"
| "call rt (Callable g) v = g v"

fun cast_to_type :: "'f runtime \<Rightarrow> 'f pyval \<Rightarrow> 'f callable \<Rightarrow> error + 'f pyval" where
  "cast_to_type rt (PList xs) type_cast =
     (case collect (map (\<lambda>x. cast_to_type rt x type_cast) xs) of
        Inl e \<Rightarrow> Inl e | Inr ys \<Rightarrow> Inr (PList ys))"
| "cast_to_type rt (PTuple xs) type_cast =
     (case collect (map (\<lambda>x. cast_to_type rt x type_cast) xs) of
        Inl e \<Rightarrow> Inl e | Inr ys \<Rightarrow> Inr (PList ys))"
| "cast_to_type rt v type_cast =
     (if type_cast = Builtin_str then Inr (PStr (force_text rt v)) else call rt type_cast v)"

definition unserialize :: "'f runtime \<Rightarrow> 'f pyval \<Rightarrow> error + 'f pyval" where
  "unserialize rt v =
     (if \<not> is_string v then Inr (cast_to_unicode rt v False)
      else
        (case json_loads rt (the_text v) of
           Inr j \<Rightarrow> Inr (cast_to_unicode rt j False)
         | Inl ValueError \<Rightarrow> Inr (cast_to_unicode rt v False)
         | Inl e \<Rightarrow> Inl e))"

subsection \<open>\<^verbatim>\<open>ArrayField\<close>\<close>

record 'f ArrayField =
  array_type :: string
  type_cast :: "'f callable"
  dimension :: int

text \<open>
  \<^verbatim>\<open>ArrayField.__init__\<close>, with its keyword arguments \<^verbatim>\<open>dbtype\<close>,
  \<^verbatim>\<open>type_cast\<close> and \<^verbatim>\<open>dimension\<close> (\<open>None\<close>: the keyword is not passed).
  \<^verbatim>\<open>split('(')[0]\<close> is the text before the first parenthesis. The keywords
  that go on to \<^verbatim>\<open>models.Field\<close> (\<^verbatim>\<open>blank\<close>, \<^verbatim>\<open>null\<close>,
  \<^verbatim>\<open>default\<close>) are left out.
\<close>

definition ArrayField_init ::
  "string option \<Rightarrow> 'f callable option \<Rightarrow> int option \<Rightarrow> 'f ArrayField" where
  "ArrayField_init dbtype_kw type_cast_kw dimension_kw =
     (let array_type = (case dbtype_kw of None \<Rightarrow> ''int'' | Some t \<Rightarrow> t);
          type_key = takeWhile (\<lambda>c. c \<noteq> CHR ''('') array_type
      in \<lparr> array_type = array_type,
           type_cast =
             (case type_cast_kw of
                Some f \<Rightarrow> f
              | None \<Rightarrow>
                  (case map_of TYPES type_key of
                     Some f \<Rightarrow> f
                   | None \<Rightarrow> Lambda_identity)),
           dimension = (case dimension_kw of None \<Rightarrow> 1 | Some d \<Rightarrow> d) \<rparr>)"

definition get_prep_value :: "'f pyval \<Rightarrow> 'f pyval" where
  "get_prep_value v = v"

definition get_db_prep_value ::
  "'f runtime \<Rightarrow> 'f ArrayField \<Rightarrow> 'f pyval \<Rightarrow> bool \<Rightarrow> error + 'f pyval" where
  "get_db_prep_value rt self v prepared =
     (let v' = (if prepared then v else get_prep_value v)
      in if \<not> truthy rt v' \<or> is_string v' then Inr v'
         else cast_to_type rt v' (type_cast self))"

definition ArrayField_to_python :: "'f runtime \<Rightarrow> 'f pyval \<Rightarrow> error + 'f pyval" where
  "ArrayField_to_python rt v = unserialize rt v"

subsection \<open>\<^verbatim>\<open>ArrayFormField\<close> and \<^verbatim>\<open>SetFormField\<close>\<close>



definition validation_message :: string where
  "validation_message = ''Please provide a comma-separated list of values.''"

text \<open>
  \<^verbatim>\<open>ArrayFormField.to_python\<close>. The helper \<^verbatim>\<open>parse_array\<close> of
  \<^verbatim>\<open>utils.py\<close> is the parameter \<open>parse\<close>; only its ValueError is caught.
\<close>

definition ArrayFormField_to_python ::
  "(string \<Rightarrow> error + 'f pyval) \<Rightarrow> 'f pyval \<Rightarrow> error + 'f pyval" where
  "ArrayFormField_to_python parse v =
     (if is_string v then
        (case parse (the_text v) of
           Inr r \<Rightarrow> Inr r
         | Inl ValueError \<Rightarrow> Inl (ValidationError validation_message)
         | Inl e \<Rightarrow> Inl e)
      else Inr v)"






section \<open>The helpers of \<^verbatim>\<open>utils.py\<close>\<close>




text \<open>
  Modelled from the spec: the tokenizer of \<^verbatim>\<open>parse_array\<close> (Parse), missing from
  the sources. "Split on the delimiter": the input is cut at the commas outside every
  brace and bracket. \<open>st\<close> is the stack of the closing delimiters still expected and
  \<open>cur\<close> the token read so far, reversed. "Unbalanced delimiters, inconsistent nesting"
  (a closing delimiter with none open or of the wrong kind, an opening one never closed)
  give \<open>None\<close>.
\<close>

fun split_top :: "string \<Rightarrow> string \<Rightarrow> string \<Rightarrow> string list option" where
  "split_top st cur [] = (if st = [] then Some [rev cur] else None)"
| "split_top st cur (c # cs) =
     (if c = CHR '','' \<and> st = [] then map_option (Cons (rev cur)) (split_top [] [] cs)
      else if c = CHR ''{'' then split_top (CHR ''}'' # st) (c # cur) cs
      else if c = CHR ''['' then split_top (CHR '']'' # st) (c # cur) cs
      else if c = CHR ''}'' \<or> c = CHR '']'' then
        (case st of
           [] \<Rightarrow> None
         | e # st' \<Rightarrow> if c = e then split_top st' (c # cur) cs else None)
      else split_top st (c # cur) cs)"

text \<open>
  Modelled from the spec: when a token "itself looks like a nested array", that is when
  it is wrapped in a pair of braces or of brackets, the text between them.
\<close>

definition nested_inner :: "string \<Rightarrow> string option" where
  "nested_inner t =
     (case t of
        [] \<Rightarrow> None
      | c # u \<Rightarrow>
          if u \<noteq> [] \<and> ((c = CHR ''{'' \<and> last u = CHR ''}'') \<or> (c = CHR ''['' \<and> last u = CHR '']''))
          then Some (butlast u) else None)"

text \<open>
  Modelled from the spec: \<^verbatim>\<open>parse_array\<close> (Parse), missing from the sources. An
  "empty/blank" input is the empty sequence; otherwise "split on the delimiter, trim
  surrounding whitespace from each token, recursively parse any token that itself looks
  like a nested array, leave scalar tokens as text". A token wrapped in braces is a
  nested array also when it is the only token, as Serialize writes one. Malformed input
  is the ValueError that \<^verbatim>\<open>ArrayFormField.to_python\<close> catches (the spec's
  ParseError).
\<close>

function parse_array :: "string \<Rightarrow> error + 'f pyval" where
  "parse_array s =
     (if strip s = [] then Inr (PList [])
      else
        (case split_top [] [] s of
           None \<Rightarrow> Inl ValueError
         | Some ts \<Rightarrow>
             (case collect
                     (map (\<lambda>t. case nested_inner (strip t) of
                                  None \<Rightarrow> Inr (PStr (strip t))
                                | Some u \<Rightarrow> parse_array u) ts) of
                Inl e \<Rightarrow> Inl e
              | Inr xs \<Rightarrow> Inr (PList xs))))"
  by pat_completeness auto
termination
proof (relation "measure length")
  show "wf (measure length)" by simp
next
  fix s :: string and ts t u
  assume split: "split_top [] [] s = Some ts" and t: "t \<in> set ts"
    and u: "nested_inner (strip t) = Some u"
  have tokens: "split_top st cur r = Some us \<Longrightarrow> w \<in> set us \<Longrightarrow>
      length w \<le> length cur + length r" for st cur r us w
  proof (induction st cur r arbitrary: us rule: split_top.induct)
    case (1 st cur)
    then show ?case by (auto split: if_splits)
  next
    case (2 st cur c cs)
    show ?case
    proof (cases "c = CHR '','' \<and> st = []")
      case True
      then obtain vs where vs: "split_top [] [] cs = Some vs" "us = rev cur # vs"
        using "2.prems"(1) by auto
      show ?thesis
      proof (cases "w = rev cur")
        case True
        then show ?thesis by simp
      next
        case False
        then have "w \<in> set vs" using "2.prems"(2) vs(2) by simp
        then have "length w \<le> length ([]::string) + length cs"
          using "2.IH"(1) [OF True vs(1)] by blast
        then show ?thesis by simp
      qed
    next
      case False
      then show ?thesis
        using "2.prems" "2.IH"(2-5)
        by (fastforce split: if_splits list.splits)
    qed
  qed
  have "length (strip t) \<le> length (dropWhile is_space t)"
    unfolding strip_def using length_dropWhile_le [of is_space "rev (dropWhile is_space t)"]
    by simp
  also have "\<dots> \<le> length t" by (rule length_dropWhile_le)
  finally have stripped: "length (strip t) \<le> length t" .
  have inner: "length u < length (strip t)"
    using u by (auto simp: nested_inner_def split: list.splits if_splits)
  have "length t \<le> length s" using tokens [OF split t] by simp
  then show "(u, s) \<in> measure length" using stripped inner by simp
qed

declare parse_array.simps [simp del]

section \<open>Notions the properties are stated with\<close>

text \<open>
  The result of a cast helper has the shape of its input: where the input has a list or
  a tuple the result has a list, with as many elements, each the image of the element at
  the same position.
\<close>

fun listified :: "'f pyval \<Rightarrow> 'f pyval \<Rightarrow> bool" where
  "listified (PList xs) r = (case r of PList ys \<Rightarrow> list_all2 listified xs ys | _ \<Rightarrow> False)"
| "listified (PTuple xs) r = (case r of PList ys \<Rightarrow> list_all2 listified xs ys | _ \<Rightarrow> False)"
| "listified v r = True"

text \<open>No tuple is met when the lists of a value are entered.\<close>

fun no_tuples :: "'f pyval \<Rightarrow> bool" where
  "no_tuples (PList xs) = list_all no_tuples xs"
| "no_tuples (PTuple xs) = False"
| "no_tuples v = True"








text \<open>
  A small runtime to run the model on: its JSON decoder reads integer documents only, and
  a float is kept as its decimal text.
\<close>

definition small_runtime :: "string runtime" where
  "small_runtime =
     \<lparr> json_loads =
         (\<lambda>s. case int_of_text s of Some n \<Rightarrow> Inr (PInt n) | None \<Rightarrow> Inl ValueError),
       float_conv =
         (\<lambda>v. case v of PFloat x \<Rightarrow> Inr x | PStr s \<Rightarrow> Inr (strip s) | _ \<Rightarrow> Inl TypeError),
       float_trunc =
         (\<lambda>x. case int_of_text (takeWhile (\<lambda>c. c \<noteq> CHR ''.'') x) of
                 Some n \<Rightarrow> Inr n | None \<Rightarrow> Inl ValueError),
       float_truth = (\<lambda>x. x \<noteq> ''0.0''),
       text_conv = (\<lambda>v. case v of PFloat x \<Rightarrow> x | _ \<Rightarrow> ''<object>''),
       sort_other = (\<lambda>xs. Inl TypeError) \<rparr>"

section \<open>Evaluation and the list comprehension\<close>

lemma digit_char_simps:
  "digit_char 0 = CHR ''0''" "digit_char 1 = CHR ''1''" "digit_char (Suc 0) = CHR ''1''"
  "digit_char 2 = CHR ''2''" "digit_char 3 = CHR ''3''" "digit_char 4 = CHR ''4''"
  "digit_char 5 = CHR ''5''" "digit_char 6 = CHR ''6''" "digit_char 7 = CHR ''7''"
  "digit_char 8 = CHR ''8''" "digit_char 9 = CHR ''9''"
  by code_simp+

lemmas text_of_int_eval = text_of_int_def digits_of.simps digit_char_simps

lemmas int_of_text_eval =
  int_of_text_def strip_def is_space_def nat_of_digits_def is_digit_def digit_val_def

lemma collect_map_Inr: "collect (map Inr vs) = Inr vs"
  by (induction vs) auto

lemma collect_Inr_D: "collect rs = Inr vs \<Longrightarrow> rs = map Inr vs"
proof (induction rs arbitrary: vs)
  case Nil
  then show ?case by simp
next
  case (Cons r rs)
  then show ?case by (cases r) (auto split: sum.splits)
qed

lemma collect_Inr_iff: "collect rs = Inr vs \<longleftrightarrow> rs = map Inr vs"
  using collect_map_Inr collect_Inr_D by blast

lemma collect_map_Inr_iff:
  "collect (map f xs) = Inr ys \<longleftrightarrow>
     length ys = length xs \<and> (\<forall>i < length xs. f (xs ! i) = Inr (ys ! i))"
  unfolding collect_Inr_iff by (auto simp: list_eq_iff_nth_eq)

lemma collect_Inl_iff:
  "collect rs = Inl e \<longleftrightarrow>
     (\<exists>i < length rs. rs ! i = Inl e \<and> (\<forall>j < i. \<exists>v. rs ! j = Inr v))"
proof (induction rs)
  case Nil
  show ?case by simp
next
  case (Cons r rs)
  show ?case
  proof (cases r)
    case (Inl e')
    show ?thesis
    proof
      assume "collect (r # rs) = Inl e"
      then have "e' = e" using Inl by simp
      then show "\<exists>i<length (r # rs). (r # rs) ! i = Inl e \<and> (\<forall>j<i. \<exists>v. (r # rs) ! j = Inr v)"
        using Inl by (intro exI [of _ 0]) simp
    next
      assume "\<exists>i<length (r # rs). (r # rs) ! i = Inl e \<and> (\<forall>j<i. \<exists>v. (r # rs) ! j = Inr v)"
      then obtain i where i: "i < length (r # rs)" "(r # rs) ! i = Inl e"
        "\<forall>j<i. \<exists>v. (r # rs) ! j = Inr v" by blast
      have "i = 0"
      proof (rule ccontr)
        assume "i \<noteq> 0"
        then have "\<exists>v. (r # rs) ! 0 = Inr v" using i(3) by blast
        then show False using Inl by simp
      qed
      then show "collect (r # rs) = Inl e" using i(2) Inl by simp
    qed
  next
    case (Inr v)
    have "collect (r # rs) = Inl e \<longleftrightarrow> collect rs = Inl e"
      using Inr by (auto split: sum.splits)
    also have "\<dots> \<longleftrightarrow> (\<exists>i < length rs. rs ! i = Inl e \<and> (\<forall>j < i. \<exists>v. rs ! j = Inr v))"
      by (rule Cons.IH)
    also have "\<dots> \<longleftrightarrow> (\<exists>i<length (r # rs). (r # rs) ! i = Inl e \<and> (\<forall>j<i. \<exists>v. (r # rs) ! j = Inr v))"
    proof
      assume "\<exists>i < length rs. rs ! i = Inl e \<and> (\<forall>j < i. \<exists>v. rs ! j = Inr v)"
      then obtain i where i: "i < length rs" "rs ! i = Inl e" "\<forall>j < i. \<exists>v. rs ! j = Inr v"
        by blast
      have "\<forall>j < Suc i. \<exists>v. (r # rs) ! j = Inr v"
        using i(3) Inr by (auto simp: nth_Cons split: nat.splits)
      then show "\<exists>i<length (r # rs). (r # rs) ! i = Inl e \<and> (\<forall>j<i. \<exists>v. (r # rs) ! j = Inr v)"
        using i(1,2) by (intro exI [of _ "Suc i"]) simp
    next
      assume "\<exists>i<length (r # rs). (r # rs) ! i = Inl e \<and> (\<forall>j<i. \<exists>v. (r # rs) ! j = Inr v)"
      then obtain i where i: "i < length (r # rs)" "(r # rs) ! i = Inl e"
        "\<forall>j<i. \<exists>v. (r # rs) ! j = Inr v" by blast
      from i(2) Inr obtain k where k: "i = Suc k" by (cases i) auto
      have "\<forall>j < k. \<exists>v. rs ! j = Inr v"
      proof (intro allI impI)
        fix j assume "j < k"
        then have "Suc j < i" using k by simp
        then have "\<exists>v. (r # rs) ! Suc j = Inr v" using i(3) by blast
        then show "\<exists>v. rs ! j = Inr v" by simp
      qed
      then show "\<exists>i < length rs. rs ! i = Inl e \<and> (\<forall>j < i. \<exists>v. rs ! j = Inr v)"
        using i(1,2) k by (intro exI [of _ k]) simp
    qed
    finally show ?thesis .
  qed
qed


lemma cast_to_type_seq_Inr_iff:
  assumes "v = PList xs \<or> v = PTuple xs"
  shows "cast_to_type rt v f = Inr r \<longleftrightarrow>
     (\<exists>ys. r = PList ys \<and> length ys = length xs \<and>
        (\<forall>i < length xs. cast_to_type rt (xs ! i) f = Inr (ys ! i)))"
proof -
  let ?c = "collect (map (\<lambda>x. cast_to_type rt x f) xs)"
  have unfold: "cast_to_type rt v f = (case ?c of Inl e \<Rightarrow> Inl e | Inr ys \<Rightarrow> Inr (PList ys))"
    using assms by auto
  show ?thesis
  proof (cases ?c)
    case (Inl e)
    have "\<not> (\<exists>ys. ?c = Inr ys)" using Inl by simp
    then have "\<not> (\<exists>ys. length ys = length xs \<and>
        (\<forall>i < length xs. cast_to_type rt (xs ! i) f = Inr (ys ! i)))"
      unfolding collect_map_Inr_iff .
    then show ?thesis using unfold Inl by auto
  next
    case (Inr zs)
    then have zs: "length zs = length xs"
      "\<forall>i < length xs. cast_to_type rt (xs ! i) f = Inr (zs ! i)"
      unfolding collect_map_Inr_iff by simp_all
    have "ys = zs" if "length ys = length xs"
      "\<forall>i < length xs. cast_to_type rt (xs ! i) f = Inr (ys ! i)" for ys
      using that zs by (auto simp: list_eq_iff_nth_eq)
    then show ?thesis using unfold Inr zs by auto
  qed
qed

lemma cast_to_type_seq_Inl_iff:
  assumes "v = PList xs \<or> v = PTuple xs"
  shows "cast_to_type rt v f = Inl e \<longleftrightarrow>
     (\<exists>i < length xs. cast_to_type rt (xs ! i) f = Inl e \<and>
        (\<forall>j < i. \<exists>y. cast_to_type rt (xs ! j) f = Inr y))"
proof -
  have "cast_to_type rt v f = Inl e \<longleftrightarrow> collect (map (\<lambda>x. cast_to_type rt x f) xs) = Inl e"
    using assms by (auto split: sum.splits)
  also have "\<dots> \<longleftrightarrow> (\<exists>i < length xs. cast_to_type rt (xs ! i) f = Inl e \<and>
        (\<forall>j < i. \<exists>y. cast_to_type rt (xs ! j) f = Inr y))"
    unfolding collect_Inl_iff by auto
  finally show ?thesis .
qed


section \<open>The cast helpers keep the shape of their input\<close>

lemma listified_cast_to_unicode: "listified v (cast_to_unicode rt v force)"
proof (induction v)
  case (PList xs)
  then show ?case by (simp add: list.rel_map list_all2_same)
next
  case (PTuple xs)
  then show ?case by (simp add: list.rel_map list_all2_same)
qed simp_all

lemma listified_cast_to_type: "cast_to_type rt v f = Inr r \<Longrightarrow> listified v r"
proof (induction v arbitrary: r)
  case (PList xs)
  from PList.prems obtain ys where ys: "r = PList ys" "length ys = length xs"
    "\<forall>i < length xs. cast_to_type rt (xs ! i) f = Inr (ys ! i)"
    using cast_to_type_seq_Inr_iff [of "PList xs" xs rt f r] by auto
  have "list_all2 listified xs ys"
    unfolding list_all2_conv_all_nth using ys(2,3) PList.IH by auto
  then show ?case using ys(1) by simp
next
  case (PTuple xs)
  from PTuple.prems obtain ys where ys: "r = PList ys" "length ys = length xs"
    "\<forall>i < length xs. cast_to_type rt (xs ! i) f = Inr (ys ! i)"
    using cast_to_type_seq_Inr_iff [of "PTuple xs" xs rt f r] by auto
  have "list_all2 listified xs ys"
    unfolding list_all2_conv_all_nth using ys(2,3) PTuple.IH by auto
  then show ?case using ys(1) by simp
qed simp_all

lemma cast_to_unicode_seq:
  assumes "v = PList xs \<or> v = PTuple xs"
  shows "cast_to_unicode rt v force = PList (map (\<lambda>x. cast_to_unicode rt x force) xs)"
  using assms by auto

lemma cast_to_unicode_fixed_iff: "cast_to_unicode rt v False = v \<longleftrightarrow> no_tuples v"
proof (induction v)
  case (PList xs)
  have "map (\<lambda>x. cast_to_unicode rt x False) xs = xs \<longleftrightarrow>
        (\<forall>x \<in> set xs. cast_to_unicode rt x False = x)"
    using map_eq_conv [of "\<lambda>x. cast_to_unicode rt x False" xs id] by simp
  then show ?case using PList.IH by (simp add: list_all_iff)
qed simp_all


section \<open>Selection of the coercion function (C2)\<close>

text \<open>
  C2, as amended. When \<^verbatim>\<open>ArrayField.__init__\<close> is given no \<^verbatim>\<open>type_cast\<close>
  argument, the coercion function it selects depends on the declared type name before
  its first parenthesis only: \<^verbatim>\<open>int\<close> for "int", "smallint" and "bigint",
  \<^verbatim>\<open>str\<close> for "text" and "varchar", \<^verbatim>\<open>float\<close> for "double precision", the
  identity for every other name; the default name is "int". When a \<^verbatim>\<open>type_cast\<close>
  argument is given, it is selected whatever the name.
\<close>

theorem type_cast_selected_by_name:
  "type_cast (ArrayField_init (Some name) None dim) =
     (let key = takeWhile (\<lambda>c. c \<noteq> CHR ''('') name in
      if key \<in> {''int'', ''smallint'', ''bigint''} then Builtin_int
      else if key \<in> {''text'', ''varchar''} then Builtin_str
      else if key = ''double precision'' then Builtin_float
      else (Lambda_identity :: 'f callable))
   \<and> type_cast (ArrayField_init None None dim) = (Builtin_int :: 'f callable)
   \<and> type_cast (ArrayField_init dbtype (Some f) dim) = (f :: 'f callable)"
  by (simp add: ArrayField_init_def TYPES_def Let_def)

theorem type_cast_selected_by_name_witness:
  "type_cast (ArrayField_init (Some ''varchar(10)'') None None) = (Builtin_str :: string callable)
   \<and> type_cast (ArrayField_init (Some ''money'') None None) = (Lambda_identity :: string callable)
   \<and> type_cast (ArrayField_init (Some ''int'') (Some Builtin_float) None)
       = (Builtin_float :: string callable)"
  using type_cast_selected_by_name
      [of "''varchar(10)''" None "Some ''int''" "Builtin_float :: string callable"]
    type_cast_selected_by_name
      [of "''money''" None "Some ''int''" "Builtin_float :: string callable"]
  by simp

text \<open>
  C2 as stated fails: for the name "int" the constructor selects \<^verbatim>\<open>float\<close>, not
  the integer parse, when \<^verbatim>\<open>type_cast=float\<close> is passed.
\<close>

theorem type_cast_argument_overrides_name:
  "type_cast (ArrayField_init (Some ''int'') (Some Builtin_float) None)
     \<noteq> (Builtin_int :: string callable)"
  by (simp add: ArrayField_init_def)

section \<open>Coercion is element-wise (C3)\<close>



section \<open>Lists in, lists out (C10)\<close>

text \<open>
  C10, as amended. For every list or tuple input, the unicode-cast helper returns a
  list with as many elements as the input, the element at each position being the cast of
  the input's element at that position; this holds again inside, at every depth
  (\<open>listified\<close>), tuples becoming lists. The type-coercion helper returns such a list
  exactly when the cast of every element returns; otherwise it raises what the first
  failing element raises.
\<close>

theorem cast_helpers_keep_shape:
  assumes "v = PList xs \<or> v = PTuple xs"
  shows "(\<exists>ys. cast_to_unicode rt v force = PList ys \<and> length ys = length xs \<and>
            (\<forall>i < length xs. ys ! i = cast_to_unicode rt (xs ! i) force))
    \<and> listified v (cast_to_unicode rt v force)
    \<and> (\<forall>r. cast_to_type rt v f = Inr r \<longleftrightarrow>
          (\<exists>ys. r = PList ys \<and> length ys = length xs \<and>
             (\<forall>i < length xs. cast_to_type rt (xs ! i) f = Inr (ys ! i))))
    \<and> (\<forall>r. cast_to_type rt v f = Inr r \<longrightarrow> listified v r)
    \<and> (\<forall>e. cast_to_type rt v f = Inl e \<longleftrightarrow>
          (\<exists>i < length xs. cast_to_type rt (xs ! i) f = Inl e \<and>
             (\<forall>j < i. \<exists>y. cast_to_type rt (xs ! j) f = Inr y)))"
proof (intro conjI allI impI)
  show "\<exists>ys. cast_to_unicode rt v force = PList ys \<and> length ys = length xs \<and>
            (\<forall>i < length xs. ys ! i = cast_to_unicode rt (xs ! i) force)"
    using cast_to_unicode_seq [OF assms, of rt force] by simp
  show "listified v (cast_to_unicode rt v force)"
    by (rule listified_cast_to_unicode)
  show "cast_to_type rt v f = Inr r \<longleftrightarrow>
          (\<exists>ys. r = PList ys \<and> length ys = length xs \<and>
             (\<forall>i < length xs. cast_to_type rt (xs ! i) f = Inr (ys ! i)))" for r
    by (rule cast_to_type_seq_Inr_iff [OF assms])
  show "listified v r" if "cast_to_type rt v f = Inr r" for r
    using that by (rule listified_cast_to_type)
  show "cast_to_type rt v f = Inl e \<longleftrightarrow>
          (\<exists>i < length xs. cast_to_type rt (xs ! i) f = Inl e \<and>
             (\<forall>j < i. \<exists>y. cast_to_type rt (xs ! j) f = Inr y))" for e
    by (rule cast_to_type_seq_Inl_iff [OF assms])
qed

theorem cast_helpers_keep_shape_witness:
  "cast_to_type small_runtime (PTuple [PStr ''7'', PList [PStr ''8'']]) Builtin_int
     = Inr (PList [PInt 7, PList [PInt 8]])
   \<and> listified (PTuple [PStr ''7'', PList [PStr ''8'']])
        (PList [PInt 7, PList [PInt 8 :: string pyval]])
   \<and> cast_to_unicode small_runtime (PTuple [PStr ''7'', PList [PStr ''8'']]) True
     = PList [PStr ''7'', PList [PStr ''8'']]"
  using cast_helpers_keep_shape
      [of "PTuple [PStr ''7'', PList [PStr ''8'']]" "[PStr ''7'', PList [PStr ''8'']]"
        small_runtime True Builtin_int]
  by (simp add: int_of_text_eval)

text \<open>
  C10 as stated fails for the type-coercion helper: on the list \<^verbatim>\<open>["a"]\<close> with
  \<^verbatim>\<open>int\<close> it raises ValueError and returns no list.
\<close>

theorem cast_to_type_raises_on_list:
  "cast_to_type small_runtime (PList [PStr ''a'']) Builtin_int = Inl ValueError"
  by (simp add: int_of_text_eval)

section \<open>Structured input passes through (C4)\<close>

text \<open>
  C4, as amended. For every input that is not a string, the form field's
  \<^verbatim>\<open>to_python\<close> returns the input unchanged. The model field's
  \<^verbatim>\<open>to_python\<close> returns its unicode cast, which has the input's shape with every
  tuple turned into a list; it is the input unchanged exactly when no tuple is met on the
  way through the input's lists.
\<close>

theorem structured_input_passes_through:
  assumes "\<not> is_string v"
  shows "ArrayFormField_to_python parse v = Inr v
    \<and> ArrayField_to_python rt v = Inr (cast_to_unicode rt v False)
    \<and> listified v (cast_to_unicode rt v False)
    \<and> (ArrayField_to_python rt v = Inr v \<longleftrightarrow> no_tuples v)"
proof -
  have a: "ArrayFormField_to_python parse v = Inr v"
    using assms by (cases v) (simp_all add: ArrayFormField_to_python_def)
  have b: "ArrayField_to_python rt v = Inr (cast_to_unicode rt v False)"
    using assms by (cases v) (simp_all add: ArrayField_to_python_def unserialize_def)
  show ?thesis
    using a b listified_cast_to_unicode [of v rt False] cast_to_unicode_fixed_iff [of rt v]
    by simp
qed

theorem structured_input_passes_through_witness:
  "\<not> is_string (PList [PInt 1, PList [PStr ''a'']] :: string pyval)
   \<and> ArrayFormField_to_python parse_array (PList [PInt 1, PList [PStr ''a'']])
       = Inr (PList [PInt 1, PList [PStr ''a'']] :: string pyval)
   \<and> ArrayField_to_python small_runtime (PList [PInt 1, PList [PStr ''a'']])
       = Inr (PList [PInt 1, PList [PStr ''a'']])"
  using structured_input_passes_through
      [of "PList [PInt 1, PList [PStr ''a'']]" parse_array small_runtime]
  by simp

text \<open>
  C4 as stated fails for the model field: the tuple \<^verbatim>\<open>(1, 2)\<close> comes back as the
  list \<^verbatim>\<open>[1, 2]\<close>.
\<close>

theorem model_field_turns_tuple_into_list:
  "ArrayField_to_python small_runtime (PTuple [PInt 1, PInt 2]) = Inr (PList [PInt 1, PInt 2])
   \<and> ArrayField_to_python small_runtime (PTuple [PInt 1, PInt 2])
       \<noteq> Inr (PTuple [PInt 1, PInt 2])"
  by (simp add: ArrayField_to_python_def unserialize_def)

section \<open>When coercion is skipped before persistence (C8)\<close>

text \<open>
  C8, as amended. \<^verbatim>\<open>get_db_prep_value\<close> returns the value as it is, whether
  \<^verbatim>\<open>prepared\<close> or not, when the value is None, an empty list or tuple, a string,
  or any other value that tests false; to every other value (a non-empty list or tuple,
  but also a scalar that tests true) it applies \<^verbatim>\<open>_cast_to_type\<close> with the
  field's coercion function.
\<close>

theorem coercion_skipped_or_applied:
  "(v = PNone \<or> v = PList [] \<or> v = PTuple [] \<or> is_string v \<longrightarrow>
      get_db_prep_value rt self v prepared = Inr v)
   \<and> (\<not> truthy rt v \<longrightarrow> get_db_prep_value rt self v prepared = Inr v)
   \<and> (truthy rt v \<and> \<not> is_string v \<longrightarrow>
      get_db_prep_value rt self v prepared = cast_to_type rt v (type_cast self))"
  by (auto simp: get_db_prep_value_def get_prep_value_def)

theorem coercion_skipped_or_applied_witness:
  "get_db_prep_value small_runtime (ArrayField_init (Some ''int'') None None) PNone False
     = Inr PNone
   \<and> get_db_prep_value small_runtime (ArrayField_init (Some ''int'') None None)
       (PStr ''{1,2}'') False = Inr (PStr ''{1,2}'')
   \<and> truthy small_runtime (PList [PStr ''1'', PStr ''2''])
   \<and> get_db_prep_value small_runtime (ArrayField_init (Some ''int'') None None)
       (PList [PStr ''1'', PStr ''2'']) False = Inr (PList [PInt 1, PInt 2])"
  using coercion_skipped_or_applied
      [of PNone small_runtime "ArrayField_init (Some ''int'') None None" False]
    coercion_skipped_or_applied
      [of "PStr ''{1,2}''" small_runtime "ArrayField_init (Some ''int'') None None" False]
    coercion_skipped_or_applied
      [of "PList [PStr ''1'', PStr ''2'']" small_runtime
        "ArrayField_init (Some ''int'') None None" False]
  by (simp add: ArrayField_init_def TYPES_def int_of_text_eval)

text \<open>
  C8 as stated fails: the integer 5, which is no sequence, is coerced; a field of type
  "text" stores it as the text "5".
\<close>

theorem scalar_is_coerced:
  "get_db_prep_value small_runtime (ArrayField_init (Some ''text'') None None) (PInt 5) False
     = Inr (PStr ''5'')
   \<and> \<not> is_list_or_tuple (PInt 5 :: string pyval)"
  by (simp add: get_db_prep_value_def get_prep_value_def ArrayField_init_def TYPES_def
      text_of_int_eval)

section \<open>The model field's parse is total (C9)\<close>



section \<open>Empty input (C6)\<close>



section \<open>Malformed text is refused (C5)\<close>









section \<open>The deduplicating, sorted parse (C7)\<close>






section \<open>Serialize, then Parse, then coerce (C1)\<close>

subsection \<open>Integers and their text\<close>












subsection \<open>The tokenizer on a serialized array\<close>





















end
